theory Spec2Isabelle
  imports Complex_Main "HOL-Library.Sublist"
begin

section \<open>The explorer game's simulation core (main.go)\<close>

text \<open>
  The program keeps one \<open>Player\<close> struct that several goroutines share: \<open>updateTick\<close>
  advances the turbine rpm, the acceleration and the velocity, the gauge goroutines and
  \<open>writeLines\<close> read it, and the button callbacks built in \<open>main\<close> change the throttle
  setting and the rudder angle.

  Conventions of the embedding:
  \<^item> a \<open>float64\<close> field is a \<open>real\<close>, and the functions of the first subsections compute
    in exact arithmetic. A division whose divisor is zero has no real value (Go yields an
    infinity or NaN there, silently); they return the error value \<open>NonFinite\<close> for it.
    Where a statement hangs on the rounding of \<open>float64\<close> (the strictness of the lag step,
    the exact return of the throttle setting), line 112 and the throttle callbacks are
    given a second time with IEEE 754 rounding, under names that end in \<open>_f64\<close>;
  \<^item> \<open>rand.Float64()\<close> is an argument of the tick, a real in \<open>[0, 1)\<close>;
  \<^item> a goroutine's loop body is a function from the shared state to the new state; a
    \<open>panic(err)\<close> after a failed write to a widget is the error value \<open>WriteFailed\<close>,
    and whether a write succeeds is an argument (the widgets are another library's);
  \<^item> \<open>strconv.FormatFloat(v, 'f', 4, 64)\<close> is the argument \<open>fmt\<close>.
\<close>

subsection \<open>Data\<close>

text \<open>\<open>Point3D\<close>; its fields \<open>x\<close>, \<open>y\<close>, \<open>z\<close> carry a prefix here, to keep these
  letters free for variables.\<close>

record Point3D =
  point_x :: real
  point_y :: real
  point_z :: real

record Player =
  position :: Point3D
  turbineRpmSettingValue :: real
  turbineRpmActualValue :: real
  velocity :: real
  acceleration :: real
  rudderAngle :: real
  direction :: real
  directionAcceleration :: real
  buoyancy :: real
  buoyancyAcceleration :: real

datatype error = NonFinite | WriteFailed

text \<open>The struct literal at the start of \<open>main\<close>.\<close>

definition player :: Player where
  "player =
     \<lparr> position = \<lparr> point_x = 0.0, point_y = 0.0, point_z = 0.0 \<rparr>,
       turbineRpmSettingValue = 0,
       turbineRpmActualValue = 0,
       velocity = 0.0,
       acceleration = 0.0,
       rudderAngle = 35.0,
       direction = 0.0,
       directionAcceleration = 0.0,
       buoyancy = 50.0,
       buoyancyAcceleration = 0.0 \<rparr>"

subsection \<open>The button callbacks of \<open>main\<close>\<close>

text \<open>
  Each callback changes one field of the captured \<open>player\<close>. The two turbine callbacks
  then return what \<open>display.Write\<close> returns, which does not touch the player; the model
  is the state change.
\<close>

definition buttonTurbinePlus :: "Player \<Rightarrow> Player" where
  "buttonTurbinePlus p =
     (let p1 = p\<lparr>turbineRpmSettingValue := turbineRpmSettingValue p + 10\<rparr>
      in if turbineRpmSettingValue p1 > 200
         then p1\<lparr>turbineRpmSettingValue := 200\<rparr>
         else p1)"

definition buttonTurbineMinus :: "Player \<Rightarrow> Player" where
  "buttonTurbineMinus p =
     (let p1 = p\<lparr>turbineRpmSettingValue := turbineRpmSettingValue p - 10\<rparr>
      in if turbineRpmSettingValue p1 < 0
         then p1\<lparr>turbineRpmSettingValue := 0\<rparr>
         else p1)"

definition rudderLeftButtonObj :: "Player \<Rightarrow> Player" where
  "rudderLeftButtonObj p = p\<lparr>rudderAngle := max (min (rudderAngle p - 2.5) 70) 0\<rparr>"

text \<open>
  The buttons \<open>main\<close> creates, and what a sequence of presses does to the player. These
  three are all the callbacks the program has.
\<close>

datatype button = TurbinePlus | TurbineMinus | RudderLeft

fun press :: "button \<Rightarrow> Player \<Rightarrow> Player" where
  "press TurbinePlus p = buttonTurbinePlus p"
| "press TurbineMinus p = buttonTurbineMinus p"
| "press RudderLeft p = rudderLeftButtonObj p"

fun presses :: "button list \<Rightarrow> Player \<Rightarrow> Player" where
  "presses [] p = p"
| "presses (b # bs) p = presses bs (press b p)"

subsection \<open>\<open>updateTick\<close>: one pass of the loop body\<close>

definition lag_divisor :: "real \<Rightarrow> real" where
  "lag_divisor a = (a + 1) * 5"

definition fdiv :: "real \<Rightarrow> real \<Rightarrow> error + real" where
  "fdiv n d = (if d = 0 then Inl NonFinite else Inr (n / d))"

text \<open>Line 112: the step of the actual rpm toward the setting \<open>s\<close>.\<close>

definition lag_step :: "real \<Rightarrow> real \<Rightarrow> error + real" where
  "lag_step s a =
     (case fdiv (s - a) (lag_divisor a) of
        Inl e \<Rightarrow> Inl e
      | Inr q \<Rightarrow> Inr (a + q))"

text \<open>
  The body of the \<open>ticker.C\<close> case. \<open>u1\<close> and \<open>u2\<close> are the two results of
  \<open>rand.Float64()\<close>, in the order of the calls; \<open>display\<close> tells whether writing the
  new velocity to the segment display succeeds.
\<close>

definition updateTick :: "(real \<Rightarrow> bool) \<Rightarrow> Player \<Rightarrow> real \<Rightarrow> real \<Rightarrow> error + Player" where
  "updateTick display p u1 u2 =
     (case lag_step (turbineRpmSettingValue p) (turbineRpmActualValue p) of
        Inl e \<Rightarrow> Inl e
      | Inr a1 \<Rightarrow>
          (let a2 = a1 * 0.998;
               a3 = a2 + a2 * u1 * 0.004;
               acc = a3 / 10.0;
               v1 = velocity p + acc / 10;
               v2 = v1 * (0.99 + u2 * 0.003);
               p' = p\<lparr>turbineRpmActualValue := a3, acceleration := acc, velocity := v2\<rparr>
           in if display v2 then Inr p' else Inl WriteFailed))"

subsection \<open>\<open>writeLines\<close>\<close>

text \<open>Lines 73 to 86: the message, from the velocity read when the goroutine starts.\<close>

definition writeLines_message :: "(real \<Rightarrow> string) \<Rightarrow> real \<Rightarrow> string" where
  "writeLines_message fmt v =
     (if v < 1.0 then ''Stopped.'' @ fmt v
      else if v < 10.0 then ''Nearly Stopped.'' @ fmt v
      else if v < 50.0 then ''Moving forward at low speed.'' @ fmt v
      else if v < 100.0 then ''Moving forward.'' @ fmt v
      else if v < 150.0 then ''Moving forward at high speed.'' @ fmt v
      else ''Full speed forward.'')"

text \<open>
  The loop. Its argument list holds the shared player as it is at each firing of the
  ticker, up to the cancellation; the result is the lines written to the text widget.
  \<open>wr\<close> tells whether a write of a line succeeds.
\<close>

fun writeLines_loop :: "(string \<Rightarrow> bool) \<Rightarrow> string \<Rightarrow> Player list \<Rightarrow> error + string list" where
  "writeLines_loop wr message [] = Inr []"
| "writeLines_loop wr message (p # ps) =
     (if wr (message @ ''\<newline>'')
      then (case writeLines_loop wr message ps of
              Inl e \<Rightarrow> Inl e
            | Inr out \<Rightarrow> Inr ((message @ ''\<newline>'') # out))
      else Inl WriteFailed)"

definition writeLines ::
  "(string \<Rightarrow> bool) \<Rightarrow> (real \<Rightarrow> string) \<Rightarrow> Player \<Rightarrow> Player list \<Rightarrow> error + string list" where
  "writeLines wr fmt p0 ps = writeLines_loop wr (writeLines_message fmt (velocity p0)) ps"

subsection \<open>The specification's wording\<close>

text \<open>\<open>clamp\<close>, as the specification's glossary has it: saturate at the nearest bound.\<close>

definition clamp :: "real \<Rightarrow> real \<Rightarrow> real \<Rightarrow> real" where
  "clamp v lo hi = (if v < lo then lo else if hi < v then hi else v)"

text \<open>
  The six updates of a tick as the specification lists them, one function each, and the
  tick as their composition in the listed order. \<open>r1\<close> is the jitter drawn from
  \<open>[0, 0.004)\<close>, \<open>d\<close> the damping factor drawn from \<open>[0.99, 0.993)\<close>.
\<close>

definition spec_step1 :: "Player \<Rightarrow> Player" where
  "spec_step1 p =
     p\<lparr>turbineRpmActualValue :=
         turbineRpmActualValue p
         + (turbineRpmSettingValue p - turbineRpmActualValue p)
           / ((turbineRpmActualValue p + 1) * 5)\<rparr>"

definition spec_step2 :: "Player \<Rightarrow> Player" where
  "spec_step2 p = p\<lparr>turbineRpmActualValue := turbineRpmActualValue p * 0.998\<rparr>"

definition spec_step3 :: "real \<Rightarrow> Player \<Rightarrow> Player" where
  "spec_step3 r1 p =
     p\<lparr>turbineRpmActualValue := turbineRpmActualValue p + turbineRpmActualValue p * r1\<rparr>"

definition spec_step4 :: "Player \<Rightarrow> Player" where
  "spec_step4 p = p\<lparr>acceleration := turbineRpmActualValue p / 10.0\<rparr>"

definition spec_step5 :: "Player \<Rightarrow> Player" where
  "spec_step5 p = p\<lparr>velocity := velocity p + acceleration p / 10\<rparr>"

definition spec_step6 :: "real \<Rightarrow> Player \<Rightarrow> Player" where
  "spec_step6 d p = p\<lparr>velocity := velocity p * d\<rparr>"

definition spec_tick :: "real \<Rightarrow> real \<Rightarrow> Player \<Rightarrow> Player" where
  "spec_tick r1 d p =
     spec_step6 d (spec_step5 (spec_step4 (spec_step3 r1 (spec_step2 (spec_step1 p)))))"

text \<open>
  The six velocity bands of the specification's table as intervals, each closed at its
  lower end and open at its upper end, and the text \<open>writeLines\<close> starts the message of
  each band with.
\<close>

datatype band = Stopped | NearlyStopped | LowSpeed | Forward | HighSpeed | FullSpeed

fun band_range :: "band \<Rightarrow> real \<Rightarrow> bool" where
  "band_range Stopped v = (v < 1)"
| "band_range NearlyStopped v = (1 \<le> v \<and> v < 10)"
| "band_range LowSpeed v = (10 \<le> v \<and> v < 50)"
| "band_range Forward v = (50 \<le> v \<and> v < 100)"
| "band_range HighSpeed v = (100 \<le> v \<and> v < 150)"
| "band_range FullSpeed v = (150 \<le> v)"

fun band_label :: "band \<Rightarrow> string" where
  "band_label Stopped = ''Stopped.''"
| "band_label NearlyStopped = ''Nearly Stopped.''"
| "band_label LowSpeed = ''Moving forward at low speed.''"
| "band_label Forward = ''Moving forward.''"
| "band_label HighSpeed = ''Moving forward at high speed.''"
| "band_label FullSpeed = ''Full speed forward.''"


subsection \<open>The minus callback, statement by statement\<close>

text \<open>
  Nothing synchronises the callbacks with \<open>updateTick\<close>, which runs in a goroutine of its
  own and may read the player between two statements of a callback. The two statements
  of the minus callback (line 301, lines 302 to 304), each as a step of its own:
\<close>

definition buttonTurbineMinus_sub :: "Player \<Rightarrow> Player" where
  "buttonTurbineMinus_sub p = p\<lparr>turbineRpmSettingValue := turbineRpmSettingValue p - 10\<rparr>"

definition buttonTurbineMinus_floor :: "Player \<Rightarrow> Player" where
  "buttonTurbineMinus_floor p =
     (if turbineRpmSettingValue p < 0 then p\<lparr>turbineRpmSettingValue := 0\<rparr> else p)"

subsection \<open>\<open>float64\<close> arithmetic\<close>

text \<open>
  Where a statement depends on the rounding of \<open>float64\<close>, the exact reals above say more
  than the program does. The definitions below are IEEE 754 binary64 with rounding to
  nearest, ties to even: a finite \<open>float64\<close> is a real of the form \<open>k * 2^(e - 52)\<close> with
  \<open>\<bar>k\<bar> \<le> 2^53\<close> and \<open>e \<ge> -1022\<close>, below \<open>2^1024\<close> in size.

  \<open>pow2 e\<close> is \<open>2^e\<close> for an integer \<open>e\<close>; \<open>rhe\<close> rounds a real to the nearest integer,
  a tie to the even one; \<open>expo x\<close> is the exponent of the binade of \<open>x\<close>, not below the
  one of the subnormal numbers; \<open>ulp x\<close> is the spacing of the \<open>float64\<close> values there;
  \<open>fl64 x\<close> is \<open>x\<close> rounded, with no bound on the exponent from above.
\<close>

definition pow2 :: "int \<Rightarrow> real" where
  "pow2 e = (if 0 \<le> e then 2 ^ nat e else 1 / 2 ^ nat (- e))"

definition rhe :: "real \<Rightarrow> int" where
  "rhe r =
     (let f = \<lfloor>r\<rfloor>
      in if r - of_int f < 1 / 2 then f
         else if 1 / 2 < r - of_int f then f + 1
         else if even f then f else f + 1)"

definition expo :: "real \<Rightarrow> int" where
  "expo x = max \<lfloor>log 2 \<bar>x\<bar>\<rfloor> (- 1022)"

definition ulp :: "real \<Rightarrow> real" where
  "ulp x = pow2 (expo x - 52)"

definition fl64 :: "real \<Rightarrow> real" where
  "fl64 x = ulp x * of_int (rhe (x / ulp x))"

text \<open>\<open>is_f64 x\<close>: the real \<open>x\<close> is a finite \<open>float64\<close>. \<open>max_f64\<close> is the largest one.\<close>

definition is_f64 :: "real \<Rightarrow> bool" where
  "is_f64 x \<longleftrightarrow> fl64 x = x \<and> \<bar>x\<bar> < pow2 1024"

definition max_f64 :: real where
  "max_f64 = pow2 1024 - pow2 971"









text \<open>
  The two throttle callbacks in \<open>float64\<close>. The setting is a finite \<open>float64\<close>; its sum
  with 10 and its difference from 10 are rounded and stay finite (\<open>add_10_finite\<close>
  below), so that \<open>fl64\<close> is the whole of the operation.
\<close>

definition buttonTurbinePlus_f64 :: "Player \<Rightarrow> Player" where
  "buttonTurbinePlus_f64 p =
     (let p1 = p\<lparr>turbineRpmSettingValue := fl64 (turbineRpmSettingValue p + 10)\<rparr>
      in if turbineRpmSettingValue p1 > 200
         then p1\<lparr>turbineRpmSettingValue := 200\<rparr>
         else p1)"

definition buttonTurbineMinus_f64 :: "Player \<Rightarrow> Player" where
  "buttonTurbineMinus_f64 p =
     (let p1 = p\<lparr>turbineRpmSettingValue := fl64 (turbineRpmSettingValue p - 10)\<rparr>
      in if turbineRpmSettingValue p1 < 0
         then p1\<lparr>turbineRpmSettingValue := 0\<rparr>
         else p1)"

section \<open>\<open>float64\<close> rounding\<close>

subsection \<open>Powers of two\<close>

lemma pow2_powr: "pow2 e = 2 powr (of_int e)"
proof (cases "0 \<le> e")
  case True
  then have "2 powr (of_int e) = (2::real) powr (real (nat e))" by simp
  also have "\<dots> = 2 ^ nat e" by (rule powr_realpow) simp
  finally show ?thesis using True by (simp add: pow2_def)
next
  case False
  then have "of_int e = - real (nat (- e))" by simp
  then have "2 powr (of_int e) = inverse ((2::real) powr (real (nat (- e))))"
    by (simp only: powr_minus)
  also have "\<dots> = inverse (2 ^ nat (- e))" by (simp only: powr_realpow [of 2, simplified])
  finally show ?thesis using False by (simp add: pow2_def inverse_eq_divide)
qed

lemma pow2_pos: "0 < pow2 e"
  by (simp add: pow2_powr)

lemma pow2_add: "pow2 (a + b) = pow2 a * pow2 b"
  by (simp add: pow2_powr powr_add)

lemma pow2_mono: "a \<le> b \<Longrightarrow> pow2 a \<le> pow2 b"
  by (simp add: pow2_powr)

lemma pow2_strict_mono: "a < b \<Longrightarrow> pow2 a < pow2 b"
  by (simp add: pow2_powr)

lemma pow2_nat: "0 \<le> e \<Longrightarrow> pow2 e = of_int (2 ^ nat e)"
  by (simp add: pow2_def)

subsection \<open>Rounding to an integer\<close>

lemma rhe_of_int: "rhe (of_int k) = k"
  by (simp add: rhe_def)

lemma rhe_bounds: "of_int (rhe r) \<le> r + 1 / 2 \<and> r - 1 / 2 \<le> of_int (rhe r)"
  unfolding rhe_def Let_def by (auto) linarith+

lemma rhe_mono: "r \<le> r' \<Longrightarrow> rhe r \<le> rhe r'"
proof -
  assume le: "r \<le> r'"
  then have fl: "\<lfloor>r\<rfloor> \<le> \<lfloor>r'\<rfloor>" by (rule floor_mono)
  show ?thesis
  proof (cases "\<lfloor>r\<rfloor> = \<lfloor>r'\<rfloor>")
    case True
    then show ?thesis using le unfolding rhe_def Let_def by auto
  next
    case False
    then have "\<lfloor>r\<rfloor> + 1 \<le> \<lfloor>r'\<rfloor>" using fl by simp
    moreover have "rhe r \<le> \<lfloor>r\<rfloor> + 1" unfolding rhe_def Let_def by auto
    moreover have "\<lfloor>r'\<rfloor> \<le> rhe r'" unfolding rhe_def Let_def by auto
    ultimately show ?thesis by linarith
  qed
qed

lemma rhe_minus: "rhe (- r) = - rhe r"
proof (cases "r \<in> \<int>")
  case True
  then obtain k where "r = of_int k" by (auto elim: Ints_cases)
  then have "rhe r = k" "rhe (- r) = - k"
    using rhe_of_int [of k] rhe_of_int [of "- k"] by simp_all
  then show ?thesis by simp
next
  case False
  then have ne: "r \<noteq> of_int \<lfloor>r\<rfloor>"
    by (metis Ints_of_int)
  then have fl: "\<lfloor>- r\<rfloor> = - \<lfloor>r\<rfloor> - 1"
    by (simp add: floor_minus ceiling_altdef)
  have fr: "0 < r - of_int \<lfloor>r\<rfloor>" "r - of_int \<lfloor>r\<rfloor> < 1" using ne by linarith+
  show ?thesis
    unfolding rhe_def Let_def fl using fr by (auto simp: algebra_simps)
qed


subsection \<open>The exponent\<close>

lemma floor_log2_bounds:
  assumes "x \<noteq> 0"
  shows "pow2 \<lfloor>log 2 \<bar>x\<bar>\<rfloor> \<le> \<bar>x\<bar> \<and> \<bar>x\<bar> < pow2 (\<lfloor>log 2 \<bar>x\<bar>\<rfloor> + 1)"
proof -
  have "0 < \<bar>x\<bar>" using assms by simp
  then have "2 powr (of_int \<lfloor>log 2 \<bar>x\<bar>\<rfloor>) \<le> \<bar>x\<bar>
      \<and> \<bar>x\<bar> < 2 powr (of_int (\<lfloor>log 2 \<bar>x\<bar>\<rfloor> + 1))"
    using floor_log_eq_powr_iff [of "\<bar>x\<bar>" 2 "\<lfloor>log 2 \<bar>x\<bar>\<rfloor>"] by simp
  then show ?thesis by (simp only: pow2_powr)
qed

lemma floor_log2_eq:
  assumes "pow2 e \<le> \<bar>x\<bar>" and "\<bar>x\<bar> < pow2 (e + 1)"
  shows "\<lfloor>log 2 \<bar>x\<bar>\<rfloor> = e"
proof -
  have "0 < \<bar>x\<bar>" using assms(1) pow2_pos [of e] by linarith
  moreover have "2 powr (of_int e) \<le> \<bar>x\<bar> \<and> \<bar>x\<bar> < 2 powr (of_int (e + 1))"
    using assms by (simp only: pow2_powr)
  ultimately show ?thesis
    using floor_log_eq_powr_iff [of "\<bar>x\<bar>" 2 e] by simp
qed

lemma expo_ge: "- 1022 \<le> expo x"
  by (simp add: expo_def)

lemma expo_minus: "expo (- x) = expo x"
  by (simp add: expo_def)

lemma expo_eq:
  assumes "pow2 e \<le> \<bar>x\<bar>" and "\<bar>x\<bar> < pow2 (e + 1)" and "- 1022 \<le> e"
  shows "expo x = e"
  using floor_log2_eq [OF assms(1,2)] assms(3) by (simp add: expo_def)


lemma expo_upper: "\<bar>x\<bar> < pow2 (expo x + 1)"
proof (cases "x = 0")
  case True
  then show ?thesis using pow2_pos [of "expo x + 1"] by simp
next
  case False
  have "pow2 (\<lfloor>log 2 \<bar>x\<bar>\<rfloor> + 1) \<le> pow2 (expo x + 1)"
    by (rule pow2_mono) (simp add: expo_def)
  then show ?thesis using floor_log2_bounds [OF False] by linarith
qed

lemma expo_lower:
  assumes "x \<noteq> 0" and "- 1022 < expo x"
  shows "pow2 (expo x) \<le> \<bar>x\<bar>"
proof -
  have "expo x = \<lfloor>log 2 \<bar>x\<bar>\<rfloor>" using assms(2) by (simp add: expo_def max_def split: if_splits)
  then show ?thesis using floor_log2_bounds [OF assms(1)] by simp
qed

lemma expo_mono:
  assumes "0 < x" and "x \<le> y"
  shows "expo x \<le> expo y"
proof -
  have "log 2 \<bar>x\<bar> \<le> log 2 \<bar>y\<bar>" using assms by simp
  then have "\<lfloor>log 2 \<bar>x\<bar>\<rfloor> \<le> \<lfloor>log 2 \<bar>y\<bar>\<rfloor>" by (rule floor_mono)
  then show ?thesis by (simp add: expo_def)
qed

subsection \<open>Rounding to \<open>float64\<close>\<close>

lemma ulp_pos: "0 < ulp x"
  by (simp add: ulp_def pow2_pos)

lemma ulp_minus: "ulp (- x) = ulp x"
  by (simp add: ulp_def expo_minus)

lemma ulp_scale: "ulp x * pow2 k = pow2 (expo x - 52 + k)"
  by (simp add: ulp_def pow2_add)

lemma fl64_0: "fl64 0 = 0"
  by (simp add: fl64_def rhe_def)

lemma fl64_minus: "fl64 (- x) = - fl64 x"
  by (simp add: fl64_def ulp_minus rhe_minus)

lemma fl64_eval:
  assumes "pow2 e \<le> \<bar>x\<bar>" and "\<bar>x\<bar> < pow2 (e + 1)" and "- 1022 \<le> e"
  shows "fl64 x = pow2 (e - 52) * of_int (rhe (x / pow2 (e - 52)))"
  by (simp add: fl64_def ulp_def expo_eq [OF assms])


lemma fl64_nonneg:
  assumes "0 \<le> x"
  shows "0 \<le> fl64 x"
proof -
  have "0 \<le> x / ulp x" using assms ulp_pos [of x] by simp
  then have "rhe 0 \<le> rhe (x / ulp x)" by (rule rhe_mono)
  then have "0 \<le> rhe (x / ulp x)" by (simp add: rhe_def)
  then show ?thesis using ulp_pos [of x] by (simp add: fl64_def)
qed


text \<open>A positive number of the binade e rounds into the closed binade.\<close>

lemma fl64_upper:
  assumes "0 \<le> x"
  shows "fl64 x \<le> pow2 (expo x + 1)"
proof -
  have "x < pow2 (expo x + 1)" using expo_upper [of x] assms by simp
  also have "pow2 (expo x + 1) = ulp x * pow2 53"
    using ulp_scale [of x 53] by (simp add: add.commute)
  finally have "x / ulp x \<le> pow2 53" using ulp_pos [of x] by (simp add: field_simps)
  also have "pow2 53 = of_int (2 ^ 53)" by (simp add: pow2_def)
  finally have "rhe (x / ulp x) \<le> rhe (of_int (2 ^ 53))" by (rule rhe_mono)
  then have "real_of_int (rhe (x / ulp x)) \<le> pow2 53"
    unfolding rhe_of_int by (simp add: pow2_def)
  then have "ulp x * real_of_int (rhe (x / ulp x)) \<le> ulp x * pow2 53"
    using ulp_pos [of x] by (simp only: mult_le_cancel_left_pos)
  also have "ulp x * pow2 53 = pow2 (expo x + 1)"
    using ulp_scale [of x 53] by (simp add: add.commute)
  finally show ?thesis by (simp add: fl64_def)
qed

lemma fl64_lower:
  assumes "0 < x" and "- 1022 < expo x"
  shows "pow2 (expo x) \<le> fl64 x"
proof -
  have "pow2 (expo x) \<le> x" using expo_lower [of x] assms by simp
  moreover have "pow2 (expo x) = ulp x * pow2 52"
    using ulp_scale [of x 52] by simp
  ultimately have "pow2 52 \<le> x / ulp x" using ulp_pos [of x] by (simp add: field_simps)
  moreover have "pow2 52 = of_int (2 ^ 52)" by (simp add: pow2_def)
  ultimately have "rhe (of_int (2 ^ 52)) \<le> rhe (x / ulp x)" by (simp only: rhe_mono)
  then have "pow2 52 \<le> real_of_int (rhe (x / ulp x))"
    unfolding rhe_of_int by (simp add: pow2_def)
  then have "ulp x * pow2 52 \<le> ulp x * real_of_int (rhe (x / ulp x))"
    using ulp_pos [of x] by (simp only: mult_le_cancel_left_pos)
  moreover have "ulp x * pow2 52 = pow2 (expo x)"
    using ulp_scale [of x 52] by simp
  ultimately show ?thesis by (simp add: fl64_def)
qed

lemma fl64_mono:
  assumes "0 \<le> x" and "x \<le> y"
  shows "fl64 x \<le> fl64 y"
proof (cases "x = 0")
  case True
  then show ?thesis using fl64_nonneg [of y] assms by (simp add: fl64_0)
next
  case False
  then have x: "0 < x" using assms(1) by simp
  then have y: "0 < y" using assms(2) by simp
  have le: "expo x \<le> expo y" using x assms(2) by (rule expo_mono)
  show ?thesis
  proof (cases "expo x = expo y")
    case True
    then have u: "ulp x = ulp y" by (simp add: ulp_def)
    have "x / ulp y \<le> y / ulp y" using assms(2) ulp_pos [of y] by (simp add: divide_right_mono)
    then have "rhe (x / ulp y) \<le> rhe (y / ulp y)" by (rule rhe_mono)
    then have "ulp y * of_int (rhe (x / ulp y)) \<le> ulp y * of_int (rhe (y / ulp y))"
      using ulp_pos [of y] by (simp only: mult_le_cancel_left_pos of_int_le_iff)
    then show ?thesis by (simp add: fl64_def u)
  next
    case False
    then have lt: "expo x + 1 \<le> expo y" using le by simp
    have "fl64 x \<le> pow2 (expo x + 1)" using assms(1) by (rule fl64_upper)
    also have "\<dots> \<le> pow2 (expo y)" using lt by (rule pow2_mono)
    also have "\<dots> \<le> fl64 y"
      using y by (rule fl64_lower) (use lt expo_ge [of x] in linarith)
    finally show ?thesis .
  qed
qed

lemma fl64_int:
  assumes "\<bar>n\<bar> < 2 ^ 53"
  shows "fl64 (of_int n) = of_int n"
proof (cases "n = 0")
  case True
  then show ?thesis by (simp add: fl64_0)
next
  case False
  define x :: real where "x = of_int n"
  have x0: "x \<noteq> 0" using False by (simp add: x_def)
  have "1 \<le> \<bar>x\<bar>" using False by (simp add: x_def)
  then have "log 2 1 \<le> log 2 \<bar>x\<bar>" by (simp del: log_one)
  then have "0 \<le> \<lfloor>log 2 \<bar>x\<bar>\<rfloor>" by simp
  then have e: "expo x = \<lfloor>log 2 \<bar>x\<bar>\<rfloor>" and e0: "0 \<le> expo x" by (simp_all add: expo_def)
  have "pow2 (expo x) \<le> \<bar>x\<bar>" using floor_log2_bounds [OF x0] e by simp
  moreover have "\<bar>x\<bar> < pow2 53" using assms by (simp add: x_def pow2_def)
  ultimately have "pow2 (expo x) < pow2 53" by linarith
  then have e53: "expo x \<le> 52" using pow2_mono [of 53 "expo x"] by linarith
  define k where "k = nat (52 - expo x)"
  have u: "ulp x = 1 / 2 ^ k"
  proof (cases "expo x = 52")
    case True
    then show ?thesis by (simp add: ulp_def pow2_def k_def)
  next
    case False
    then have "expo x - 52 < 0" using e53 by simp
    then show ?thesis by (simp add: ulp_def pow2_def k_def)
  qed
  have "x / ulp x = x * 2 ^ k" by (simp add: u)
  then have "x / ulp x = of_int (n * 2 ^ k)" by (simp add: x_def)
  then have "rhe (x / ulp x) = n * 2 ^ k" by (simp only: rhe_of_int)
  then have "fl64 x = ulp x * of_int (n * 2 ^ k)" by (simp only: fl64_def)
  also have "\<dots> = (1 / 2 ^ k) * of_int (n * 2 ^ k)" by (simp only: u)
  also have "\<dots> = (1 / 2 ^ k) * (x * 2 ^ k)" by (simp add: x_def)
  also have "\<dots> = x" by simp
  finally have "fl64 x = x" .
  then show ?thesis by (simp add: x_def)
qed


subsection \<open>Particular values\<close>



lemma is_f64_int: "\<bar>n\<bar> < 2 ^ 53 \<Longrightarrow> is_f64 (of_int n)"
proof -
  assume n: "\<bar>n\<bar> < 2 ^ 53"
  then have "\<bar>real_of_int n\<bar> < 2 ^ 53"
    by (metis of_int_abs of_int_less_iff of_int_numeral of_int_power)
  also have "(2::real) ^ 53 < pow2 1024" by (simp add: pow2_def)
  finally show ?thesis using fl64_int [OF n] by (simp add: is_f64_def)
qed



lemma is_f64_le_max:
  assumes "is_f64 x"
  shows "x \<le> max_f64"
proof (rule ccontr)
  assume "\<not> x \<le> max_f64"
  then have gt: "max_f64 < x" by simp
  have lt: "\<bar>x\<bar> < pow2 1024" and fx: "fl64 x = x" using assms by (simp_all add: is_f64_def)
  have "pow2 1023 \<le> max_f64" by (simp add: max_f64_def pow2_def)
  then have x: "pow2 1023 \<le> \<bar>x\<bar>" "0 < x" using gt pow2_pos [of 1023] by linarith+
  have e: "expo x = 1023" using x(1) lt by (intro expo_eq) simp_all
  then have u: "ulp x = pow2 971" by (simp add: ulp_def)
  define k where "k = rhe (x / ulp x)"
  have xk: "x = pow2 971 * of_int k" using fx by (simp add: fl64_def k_def u)
  have "pow2 971 * of_int k < pow2 971 * pow2 53"
    using lt x(2) xk pow2_add [of 971 53] by simp
  then have "real_of_int k < pow2 53" using pow2_pos [of 971] by (simp only: mult_less_cancel_left_pos)
  then have "real_of_int k < of_int (2 ^ 53)" by (simp add: pow2_def)
  then have "k < 2 ^ 53" by (simp only: of_int_less_iff)
  then have "k \<le> 2 ^ 53 - 1" by simp
  then have "real_of_int k \<le> of_int (2 ^ 53 - 1)" by (simp only: of_int_le_iff)
  then have "real_of_int k \<le> pow2 53 - 1" by (simp add: pow2_def)
  then have "pow2 971 * of_int k \<le> pow2 971 * (pow2 53 - 1)"
    using pow2_pos [of 971] by (simp only: mult_le_cancel_left_pos)
  also have "\<dots> = max_f64" using pow2_add [of 971 53] by (simp add: max_f64_def algebra_simps)
  finally show False using gt xk by simp
qed



lemma is_f64_0: "is_f64 0"
  using is_f64_int [of 0] by simp

lemma is_f64_max: "is_f64 max_f64"
proof -
  have "0 \<le> max_f64" by (simp add: max_f64_def pow2_def)
  then have "fl64 0 \<le> fl64 max_f64" "fl64 max_f64 \<le> fl64 (max_f64 + 1)"
    by (simp_all add: fl64_mono)
  have "fl64 max_f64 = pow2 (1023 - 52) * of_int (rhe (max_f64 / pow2 (1023 - 52)))"
    by (rule fl64_eval) (simp_all add: max_f64_def pow2_def)
  also have "max_f64 / pow2 (1023 - 52) = of_int (2 ^ 53 - 1)"
    by (simp add: max_f64_def pow2_def field_simps)
  finally have "fl64 max_f64 = max_f64"
    unfolding rhe_of_int by (simp add: max_f64_def pow2_def)
  then show ?thesis by (simp add: is_f64_def) (simp add: max_f64_def pow2_def)
qed

subsection \<open>Rounding a given number\<close>

lemma rhe_near:
  assumes "of_int k - 1 / 2 < r" and "r < of_int k + 1 / 2"
  shows "rhe r = k"
proof -
  have lo: "of_int (rhe r) \<le> r + 1 / 2" and hi: "r - 1 / 2 \<le> of_int (rhe r)"
    using rhe_bounds [of r] by simp_all
  have "real_of_int (rhe r) < of_int k + 1" using lo assms(2) by linarith
  then have "real_of_int (rhe r) < of_int (k + 1)" by simp
  then have a: "rhe r < k + 1" by (simp only: of_int_less_iff)
  have "of_int k - 1 < real_of_int (rhe r)" using hi assms(1) by linarith
  then have "of_int (k - 1) < real_of_int (rhe r)" by simp
  then have "k - 1 < rhe r" by (simp only: of_int_less_iff)
  then show ?thesis using a by simp
qed

lemma rhe_tie:
  assumes "r = of_int k - 1 / 2" and "even k"
  shows "rhe r = k"
proof -
  have f: "\<lfloor>r\<rfloor> = k - 1" unfolding assms(1) by (simp add: floor_eq_iff)
  have "odd (k - 1)" using assms(2) by simp
  then show ?thesis unfolding rhe_def Let_def f using assms(1) by simp
qed

lemma fl64_evalI:
  assumes "pow2 e \<le> \<bar>x\<bar>" and "\<bar>x\<bar> < pow2 (e + 1)" and "- 1022 \<le> e"
    and "rhe (x / pow2 (e - 52)) = k" and "y = pow2 (e - 52) * of_int k"
  shows "fl64 x = y"
  using fl64_eval [OF assms(1-3)] assms(4,5) by simp



lemma small_lt_pow2_1024: "\<bar>y\<bar> \<le> 2 ^ 20 \<Longrightarrow> \<bar>y\<bar> < pow2 1024"
proof -
  assume "\<bar>y\<bar> \<le> 2 ^ 20"
  moreover have "pow2 20 < pow2 1024" by (rule pow2_strict_mono) simp
  moreover have "pow2 20 = 2 ^ 20" by (simp add: pow2_def)
  ultimately show ?thesis by linarith
qed


text \<open>
  Adding or subtracting 10 cannot take a finite \<open>float64\<close> out of the finite range: the
  largest one plus 10 rounds to itself.
\<close>

lemma fl64_max_plus_10: "fl64 (max_f64 + 10) = max_f64"
proof (rule fl64_evalI [where e = 1023 and k = "2 ^ 53 - 1"])
  show "rhe ((max_f64 + 10) / pow2 (1023 - 52)) = 2 ^ 53 - 1"
    by (rule rhe_near) (simp_all add: max_f64_def pow2_def field_simps)
qed (simp_all add: max_f64_def pow2_def)

lemma fl64_near_max:
  assumes "\<bar>c\<bar> \<le> max_f64 + 10"
  shows "\<bar>fl64 c\<bar> \<le> max_f64"
proof -
  have "0 \<le> fl64 \<bar>c\<bar>" by (rule fl64_nonneg) simp
  moreover have "fl64 \<bar>c\<bar> \<le> fl64 (max_f64 + 10)" using assms by (intro fl64_mono) simp_all
  moreover have "\<bar>fl64 c\<bar> = fl64 \<bar>c\<bar>"
  proof (cases "0 \<le> c")
    case True
    then show ?thesis using fl64_nonneg [of c] by simp
  next
    case False
    then have "0 \<le> - c" by simp
    then have "0 \<le> fl64 (- c)" by (rule fl64_nonneg)
    then show ?thesis using False by (simp add: fl64_minus abs_if)
  qed
  ultimately show ?thesis by (simp add: fl64_max_plus_10)
qed

lemma is_f64_abs_le_max:
  assumes "is_f64 x"
  shows "\<bar>x\<bar> \<le> max_f64"
proof -
  have "is_f64 (- x)" using assms by (simp add: is_f64_def fl64_minus)
  then have "- x \<le> max_f64" by (rule is_f64_le_max)
  then show ?thesis using is_f64_le_max [OF assms] by simp
qed

lemma add_10_finite:
  assumes "is_f64 s"
  shows "\<bar>fl64 (s + 10)\<bar> < pow2 1024 \<and> \<bar>fl64 (s - 10)\<bar> < pow2 1024"
proof -
  have m: "max_f64 < pow2 1024" using pow2_pos [of 971] by (simp add: max_f64_def)
  have "\<bar>s + 10\<bar> \<le> max_f64 + 10" "\<bar>s - 10\<bar> \<le> max_f64 + 10"
    using is_f64_abs_le_max [OF assms] by simp_all
  then have "\<bar>fl64 (s + 10)\<bar> \<le> max_f64" "\<bar>fl64 (s - 10)\<bar> \<le> max_f64"
    by (simp_all only: fl64_near_max)
  then show ?thesis using m by simp
qed

section \<open>The throttle buttons\<close>

lemma setting_plus:
  "turbineRpmSettingValue (buttonTurbinePlus p) = min (turbineRpmSettingValue p + 10) 200"
  by (simp add: buttonTurbinePlus_def Let_def)

lemma setting_minus:
  "turbineRpmSettingValue (buttonTurbineMinus p) = max (turbineRpmSettingValue p - 10) 0"
  by (simp add: buttonTurbineMinus_def Let_def)

lemma setting_presses:
  assumes "set bs \<subseteq> {TurbinePlus, TurbineMinus}"
    and "0 \<le> turbineRpmSettingValue p" and "turbineRpmSettingValue p \<le> 200"
  shows "0 \<le> turbineRpmSettingValue (presses bs p)
    \<and> turbineRpmSettingValue (presses bs p) \<le> 200"
  using assms
proof (induction bs arbitrary: p)
  case Nil
  then show ?case by simp
next
  case (Cons b bs)
  from Cons.prems(1) have b: "b = TurbinePlus \<or> b = TurbineMinus"
    and bs: "set bs \<subseteq> {TurbinePlus, TurbineMinus}"
    by auto
  have "0 \<le> turbineRpmSettingValue (press b p) \<and> turbineRpmSettingValue (press b p) \<le> 200"
    using b Cons.prems(2,3) by (auto simp: setting_plus setting_minus)
  then show ?case using Cons.IH [OF bs] by simp
qed

lemma twenty_plus:
  "turbineRpmSettingValue p = 0
   \<Longrightarrow> turbineRpmSettingValue (presses (replicate 20 TurbinePlus) p) = 200"
  by (simp add: numeral_eq_Suc setting_plus)

text \<open>
  C5. The plus button sets the throttle setting to \<open>min (setting + 10) 200\<close> and the
  minus button to \<open>max (setting - 10) 0\<close>. Hence from a setting in \<open>[0, 200]\<close> every
  finite sequence of presses of these two buttons leaves the setting in \<open>[0, 200]\<close>, and
  twenty presses of the plus button from the setting 0 give exactly 200.
\<close>

theorem throttle_buttons:
  "turbineRpmSettingValue (buttonTurbinePlus p) = min (turbineRpmSettingValue p + 10) 200
   \<and> turbineRpmSettingValue (buttonTurbineMinus p) = max (turbineRpmSettingValue p - 10) 0
   \<and> (set bs \<subseteq> {TurbinePlus, TurbineMinus}
        \<and> 0 \<le> turbineRpmSettingValue p \<and> turbineRpmSettingValue p \<le> 200
      \<longrightarrow> 0 \<le> turbineRpmSettingValue (presses bs p)
          \<and> turbineRpmSettingValue (presses bs p) \<le> 200)
   \<and> (turbineRpmSettingValue p = 0
      \<longrightarrow> turbineRpmSettingValue (presses (replicate 20 TurbinePlus) p) = 200)"
  using setting_presses [of bs p] twenty_plus [of p]
  by (simp only: setting_plus setting_minus) blast

theorem throttle_buttons_witness:
  "turbineRpmSettingValue (presses [TurbinePlus, TurbineMinus, TurbineMinus] player) = 0
   \<and> 0 \<le> turbineRpmSettingValue (presses [TurbinePlus, TurbineMinus, TurbineMinus] player)
   \<and> turbineRpmSettingValue (presses [TurbinePlus, TurbineMinus, TurbineMinus] player) \<le> 200
   \<and> turbineRpmSettingValue (presses (replicate 20 TurbinePlus) player) = 200"
  using throttle_buttons [of player "[TurbinePlus, TurbineMinus, TurbineMinus]"]
  by (simp add: player_def setting_plus setting_minus)

text \<open>
  In exact arithmetic the plus button followed by the minus button gives every setting
  in \<open>[10, 190]\<close> back.
\<close>

lemma plus_then_minus_exact:
  assumes "10 \<le> turbineRpmSettingValue p" and "turbineRpmSettingValue p \<le> 190"
  shows "buttonTurbineMinus (buttonTurbinePlus p) = p"
  using assms by (simp add: buttonTurbinePlus_def buttonTurbineMinus_def Let_def)

text \<open>
  In \<open>float64\<close> the sum \<open>setting + 10\<close> is rounded when it is not a \<open>float64\<close> itself, and
  the minus button then returns a neighbour of the setting. The whole numbers up to
  \<open>2^53\<close> are \<open>float64\<close> values, and so are their sums with 10.
\<close>

lemma whole_setting_exact:
  assumes "10 \<le> n" and "n \<le> 190"
  shows "is_f64 (of_int n) \<and> is_f64 (of_int n + 10)"
proof -
  have "\<bar>n\<bar> < 2 ^ 53" "\<bar>n + 10\<bar> < 2 ^ 53" using assms by simp_all
  then have "is_f64 (of_int n)" "is_f64 (of_int (n + 10))" by (simp_all only: is_f64_int)
  then show ?thesis by simp
qed

text \<open>
  C8, for the \<open>float64\<close> settings whose sum with 10 is exact. From a \<open>float64\<close> setting in
  \<open>[10, 190]\<close> for which \<open>setting + 10\<close> is a \<open>float64\<close> again, the plus button followed by
  the minus button gives the setting back exactly: the plus button adds 10 without
  reaching its cap, the minus button takes the 10 away without reaching its floor, and
  the player is the one before. Every whole-number setting in \<open>[10, 190]\<close> is of that
  kind, hence every setting the buttons can reach from 0, the multiples of 10.
\<close>

theorem plus_then_minus_f64:
  assumes "is_f64 (turbineRpmSettingValue p)" and "is_f64 (turbineRpmSettingValue p + 10)"
    and "10 \<le> turbineRpmSettingValue p" and "turbineRpmSettingValue p \<le> 190"
  shows "turbineRpmSettingValue (buttonTurbinePlus_f64 p) = turbineRpmSettingValue p + 10
    \<and> turbineRpmSettingValue (buttonTurbineMinus_f64 (buttonTurbinePlus_f64 p))
        = turbineRpmSettingValue p
    \<and> buttonTurbineMinus_f64 (buttonTurbinePlus_f64 p) = p
    \<and> (10 \<le> n \<and> n \<le> 190 \<longrightarrow> is_f64 (of_int n) \<and> is_f64 (of_int n + 10))"
proof -
  have up: "fl64 (turbineRpmSettingValue p + 10) = turbineRpmSettingValue p + 10"
    using assms(2) by (simp add: is_f64_def)
  have down: "fl64 (turbineRpmSettingValue p) = turbineRpmSettingValue p"
    using assms(1) by (simp add: is_f64_def)
  have plus: "buttonTurbinePlus_f64 p
      = p\<lparr>turbineRpmSettingValue := turbineRpmSettingValue p + 10\<rparr>"
    using assms(4) by (simp add: buttonTurbinePlus_f64_def Let_def up)
  have minus: "buttonTurbineMinus_f64 (buttonTurbinePlus_f64 p) = p"
    using assms(3) by (simp add: plus buttonTurbineMinus_f64_def Let_def down)
  show ?thesis
    using whole_setting_exact [of n] by (simp add: minus) (simp add: plus)
qed

theorem plus_then_minus_f64_witness:
  "is_f64 30 \<and> is_f64 (30 + 10) \<and> (10::real) \<le> 30 \<and> (30::real) \<le> 190
   \<and> turbineRpmSettingValue
        (buttonTurbinePlus_f64 (player\<lparr>turbineRpmSettingValue := 30\<rparr>)) = 40
   \<and> turbineRpmSettingValue
        (buttonTurbineMinus_f64
          (buttonTurbinePlus_f64 (player\<lparr>turbineRpmSettingValue := 30\<rparr>))) = 30"
proof -
  have i: "is_f64 30" "is_f64 (30 + 10)"
    using is_f64_int [of 30] is_f64_int [of 40] by simp_all
  then show ?thesis
    using plus_then_minus_f64 [of "player\<lparr>turbineRpmSettingValue := 30\<rparr>"] by simp
qed

text \<open>
  C8 as the specification states it covers every setting in \<open>[10, 190]\<close>. The \<open>float64\<close>
  nearest to 10.1 is \<open>5685794529555251 / 2^49\<close>; its sum with 10 lies halfway between two
  \<open>float64\<close> values and is rounded to the even one, and the minus button returns the
  setting plus \<open>1 / 2^49\<close>, the next \<open>float64\<close> above.
\<close>

lemma fl64_setting_10_1: "fl64 (5685794529555251 / 2 ^ 49) = 5685794529555251 / 2 ^ 49"
proof (rule fl64_evalI [where e = 3 and k = 5685794529555251])
  show "rhe (5685794529555251 / 2 ^ 49 / pow2 (3 - 52)) = 5685794529555251"
    by (rule rhe_near) (simp_all add: pow2_def)
qed (simp_all add: pow2_def)

lemma fl64_setting_10_1_plus:
  "fl64 (5685794529555251 / 2 ^ 49 + 10) = 5657647031884186 / 2 ^ 48"
proof (rule fl64_evalI [where e = 4 and k = 5657647031884186])
  show "rhe ((5685794529555251 / 2 ^ 49 + 10) / pow2 (4 - 52)) = 5657647031884186"
    by (rule rhe_tie) (simp_all add: pow2_def)
qed (simp_all add: pow2_def)

lemma fl64_setting_10_1_minus:
  "fl64 (5657647031884186 / 2 ^ 48 - 10) = 5685794529555252 / 2 ^ 49"
proof (rule fl64_evalI [where e = 3 and k = 5685794529555252])
  show "rhe ((5657647031884186 / 2 ^ 48 - 10) / pow2 (3 - 52)) = 5685794529555252"
    by (rule rhe_near) (simp_all add: pow2_def)
qed (simp_all add: pow2_def)

theorem minus_after_plus_rounds:
  "is_f64 (5685794529555251 / 2 ^ 49)
   \<and> (10::real) \<le> 5685794529555251 / 2 ^ 49 \<and> (5685794529555251 / 2 ^ 49 :: real) \<le> 190
   \<and> turbineRpmSettingValue
        (buttonTurbineMinus_f64
          (buttonTurbinePlus_f64 (player\<lparr>turbineRpmSettingValue := 5685794529555251 / 2 ^ 49\<rparr>)))
      = 5685794529555251 / 2 ^ 49 + 1 / 2 ^ 49
   \<and> turbineRpmSettingValue
        (buttonTurbineMinus_f64
          (buttonTurbinePlus_f64 (player\<lparr>turbineRpmSettingValue := 5685794529555251 / 2 ^ 49\<rparr>)))
      \<noteq> 5685794529555251 / 2 ^ 49"
proof -
  let ?x = "5685794529555251 / 2 ^ 49 :: real"
  have "\<bar>?x\<bar> < pow2 1024" by (rule small_lt_pow2_1024) simp
  then have f: "is_f64 ?x"
    unfolding is_f64_def using fl64_setting_10_1 by blast
  have sel: "turbineRpmSettingValue (player\<lparr>turbineRpmSettingValue := ?x\<rparr>) = ?x"
    by simp
  have plus: "buttonTurbinePlus_f64 (player\<lparr>turbineRpmSettingValue := ?x\<rparr>)
      = player\<lparr>turbineRpmSettingValue := 5657647031884186 / 2 ^ 48\<rparr>"
    unfolding buttonTurbinePlus_f64_def Let_def sel fl64_setting_10_1_plus by simp
  have sel': "turbineRpmSettingValue (player\<lparr>turbineRpmSettingValue := 5657647031884186 / 2 ^ 48\<rparr>)
      = 5657647031884186 / 2 ^ 48"
    by simp
  have "buttonTurbineMinus_f64 (buttonTurbinePlus_f64 (player\<lparr>turbineRpmSettingValue := ?x\<rparr>))
      = player\<lparr>turbineRpmSettingValue := 5685794529555252 / 2 ^ 49\<rparr>"
    unfolding plus buttonTurbineMinus_f64_def Let_def sel' fl64_setting_10_1_minus by simp
  then have "turbineRpmSettingValue
      (buttonTurbineMinus_f64 (buttonTurbinePlus_f64 (player\<lparr>turbineRpmSettingValue := ?x\<rparr>)))
      = 5685794529555252 / 2 ^ 49"
    by simp
  then show ?thesis using f by simp
qed

section \<open>The rudder button\<close>

lemma rudder_left_clamp:
  "rudderAngle (rudderLeftButtonObj p) = clamp (rudderAngle p - 2.5) 0 70"
  by (simp add: rudderLeftButtonObj_def clamp_def)

lemma rudder_lefts_nonneg:
  "0 \<le> rudderAngle p \<Longrightarrow> 0 \<le> rudderAngle (presses (replicate n RudderLeft) p)"
  by (induction n arbitrary: p) (simp_all add: rudderLeftButtonObj_def)

lemma three_lefts: "rudderAngle (presses (replicate 3 RudderLeft) player) = 27.5"
  by (simp add: numeral_eq_Suc rudderLeftButtonObj_def player_def)

text \<open>
  C7. The left button sets the rudder angle to \<open>clamp (angle - 2.5) 0 70\<close>. The player
  starts with the angle 35; three presses of the left button give 27.5, and however many
  presses follow, the angle is never below 0.
\<close>

theorem left_button_clamps:
  "rudderAngle (rudderLeftButtonObj p) = clamp (rudderAngle p - 2.5) 0 70
   \<and> rudderAngle player = 35
   \<and> rudderAngle (presses (replicate 3 RudderLeft) player) = 27.5
   \<and> 0 \<le> rudderAngle
            (presses (replicate n RudderLeft) (presses (replicate 3 RudderLeft) player))"
proof -
  have "0 \<le> rudderAngle (presses (replicate 3 RudderLeft) player)"
    by (simp add: three_lefts)
  then have "0 \<le> rudderAngle
      (presses (replicate n RudderLeft) (presses (replicate 3 RudderLeft) player))"
    by (rule rudder_lefts_nonneg)
  moreover have "rudderAngle player = 35" by (simp add: player_def)
  ultimately show ?thesis
    using rudder_left_clamp [of p] three_lefts by blast
qed

lemma press_rudder:
  assumes "0 \<le> rudderAngle p" and "rudderAngle p \<le> 70"
  shows "0 \<le> rudderAngle (press b p) \<and> rudderAngle (press b p) \<le> rudderAngle p"
  using assms
  by (cases b)
    (simp_all add: buttonTurbinePlus_def buttonTurbineMinus_def rudderLeftButtonObj_def Let_def)

lemma presses_rudder:
  assumes "0 \<le> rudderAngle p" and "rudderAngle p \<le> 70"
  shows "0 \<le> rudderAngle (presses bs p) \<and> rudderAngle (presses bs p) \<le> rudderAngle p"
  using assms
proof (induction bs arbitrary: p)
  case Nil
  then show ?case by simp
next
  case (Cons b bs)
  have step: "0 \<le> rudderAngle (press b p) \<and> rudderAngle (press b p) \<le> rudderAngle p"
    using Cons.prems by (rule press_rudder)
  then have "0 \<le> rudderAngle (presses bs (press b p))
      \<and> rudderAngle (presses bs (press b p)) \<le> rudderAngle (press b p)"
    using Cons.prems(2) by (intro Cons.IH) simp_all
  then show ?case using step by simp
qed

text \<open>
  C6, for the buttons the program has. The program has no button that turns the rudder to the right: from a
  rudder angle in \<open>[0, 70]\<close>, none of its three buttons raises the angle (the throttle
  buttons leave it, the left button lowers it or leaves it at 0). Every finite sequence of
  presses of the buttons the program has keeps a rudder angle that starts in \<open>[0, 70]\<close>
  within \<open>[0, 70]\<close>.
\<close>

theorem rudder_buttons:
  assumes "0 \<le> rudderAngle p" and "rudderAngle p \<le> 70"
  shows "rudderAngle (press b p) \<le> rudderAngle p
    \<and> 0 \<le> rudderAngle (presses bs p) \<and> rudderAngle (presses bs p) \<le> 70"
  using press_rudder [OF assms, of b] presses_rudder [OF assms, of bs] assms(2)
  by simp

theorem rudder_buttons_witness:
  "rudderAngle (press RudderLeft player) \<le> 35
   \<and> 0 \<le> rudderAngle (presses [RudderLeft, TurbinePlus, RudderLeft] player)
   \<and> rudderAngle (presses [RudderLeft, TurbinePlus, RudderLeft] player) \<le> 70"
  using rudder_buttons [of player RudderLeft "[RudderLeft, TurbinePlus, RudderLeft]"]
  by (simp add: player_def)

text \<open>
  C6 as the specification states it asks for an operation that sets the rudder angle to
  \<open>clamp (angle + 2.5) 0 70\<close>. On the initial player, whose angle is 35, that is 37.5, and
  no button of the program gives it.
\<close>

theorem no_rudder_right:
  "rudderAngle (press TurbinePlus player) \<noteq> clamp (rudderAngle player + 2.5) 0 70
   \<and> rudderAngle (press TurbineMinus player) \<noteq> clamp (rudderAngle player + 2.5) 0 70
   \<and> rudderAngle (press RudderLeft player) \<noteq> clamp (rudderAngle player + 2.5) 0 70"
  by (simp add: player_def clamp_def buttonTurbinePlus_def buttonTurbineMinus_def
      rudderLeftButtonObj_def Let_def)

section \<open>The tick\<close>

subsection \<open>The lag step\<close>

lemma lag_divisor_ge: "0 \<le> a \<Longrightarrow> 5 \<le> lag_divisor a"
  by (simp add: lag_divisor_def)

lemma lag_step_Inr:
  "lag_divisor a \<noteq> 0 \<Longrightarrow> lag_step s a = Inr (a + (s - a) / lag_divisor a)"
  by (simp add: lag_step_def fdiv_def)

text \<open>A difference divided by at least 5 keeps its sign and gets strictly smaller.\<close>

lemma lag_quotient_pos:
  fixes s a D :: real
  assumes D: "5 \<le> D" and lt: "a < s"
  shows "0 < (s - a) / D \<and> (s - a) / D < s - a"
proof -
  define q where "q = (s - a) / D"
  have qD: "q * D = s - a" using D by (simp add: q_def)
  have q: "0 < q" using D lt by (simp add: q_def)
  have "1 < D" using D by simp
  then have "q * 1 < q * D" using q by (simp only: mult_strict_left_mono)
  then show ?thesis using q qD by (simp add: q_def)
qed

lemma lag_quotient_neg:
  fixes s a D :: real
  assumes D: "5 \<le> D" and lt: "s < a"
  shows "s - a < (s - a) / D \<and> (s - a) / D < 0"
proof -
  have "0 < (a - s) / D \<and> (a - s) / D < a - s"
    using D lt by (rule lag_quotient_pos)
  moreover have "(a - s) / D = - ((s - a) / D)"
    by (simp add: minus_divide_left)
  ultimately show ?thesis by simp
qed


text \<open>
  In exact arithmetic the lag step moves the actual rpm strictly toward the setting: for
  a setting \<open>s\<close> in \<open>[0, 200]\<close> and an actual rpm \<open>a \<ge> 0\<close> it returns \<open>a'\<close> with
  \<open>a < a' \<le> s\<close> when \<open>a < s\<close>, with \<open>s \<le> a' < a\<close> when \<open>a > s\<close>, and \<open>a' = a\<close> exactly
  when \<open>a = s\<close>.
\<close>

lemma lag_step_exact:
  assumes "0 \<le> s" and "s \<le> 200" and "0 \<le> a"
  shows "\<exists>a'. lag_step s a = Inr a'
     \<and> (a < s \<longrightarrow> a < a' \<and> a' \<le> s)
     \<and> (s < a \<longrightarrow> s \<le> a' \<and> a' < a)
     \<and> (a' = a \<longleftrightarrow> a = s)"
proof -
  have D: "5 \<le> lag_divisor a" using assms(3) by (rule lag_divisor_ge)
  then have eq: "lag_step s a = Inr (a + (s - a) / lag_divisor a)"
    by (intro lag_step_Inr) simp
  have up: "a < s \<Longrightarrow> a < a + (s - a) / lag_divisor a \<and> a + (s - a) / lag_divisor a \<le> s"
    using lag_quotient_pos [OF D, of a s] by simp
  have down: "s < a \<Longrightarrow> s \<le> a + (s - a) / lag_divisor a \<and> a + (s - a) / lag_divisor a < a"
    using lag_quotient_neg [OF D, of s a] by simp
  have same: "a + (s - a) / lag_divisor a = a \<longleftrightarrow> a = s"
    using D by auto
  show ?thesis
    unfolding eq using up down same by blast
qed

subsection \<open>The lag step in \<open>float64\<close>\<close>


















subsection \<open>The tick and the six steps of the specification\<close>

lemma updateTick_cases:
  assumes "lag_divisor (turbineRpmActualValue p) \<noteq> 0"
  shows "updateTick display p u1 u2 =
    (if display (velocity (spec_tick (u1 * 0.004) (0.99 + u2 * 0.003) p))
     then Inr (spec_tick (u1 * 0.004) (0.99 + u2 * 0.003) p) else Inl WriteFailed)"
  using assms
  by (simp add: updateTick_def lag_step_Inr Let_def spec_tick_def spec_step1_def spec_step2_def
      spec_step3_def spec_step4_def spec_step5_def spec_step6_def lag_divisor_def mult.assoc)

lemma spec_tick_fields:
  "turbineRpmSettingValue (spec_tick r1 d p) = turbineRpmSettingValue p"
  "turbineRpmActualValue (spec_tick r1 d p) =
     (turbineRpmActualValue p
      + (turbineRpmSettingValue p - turbineRpmActualValue p)
        / lag_divisor (turbineRpmActualValue p))
     * 0.998 * (1 + r1)"
  "acceleration (spec_tick r1 d p) = turbineRpmActualValue (spec_tick r1 d p) / 10"
  "velocity (spec_tick r1 d p) = (velocity p + acceleration (spec_tick r1 d p) / 10) * d"
  by (simp_all add: spec_tick_def spec_step1_def spec_step2_def
      spec_step3_def spec_step4_def spec_step5_def spec_step6_def lag_divisor_def distrib_left)

lemma spec_tick_other_fields:
  "position (spec_tick r1 d p) = position p"
  "rudderAngle (spec_tick r1 d p) = rudderAngle p"
  "direction (spec_tick r1 d p) = direction p"
  "directionAcceleration (spec_tick r1 d p) = directionAcceleration p"
  "buoyancy (spec_tick r1 d p) = buoyancy p"
  "buoyancyAcceleration (spec_tick r1 d p) = buoyancyAcceleration p"
  by (simp_all add: spec_tick_def spec_step1_def spec_step2_def
      spec_step3_def spec_step4_def spec_step5_def spec_step6_def)

lemma draws_in_range:
  fixes u1 u2 :: real
  assumes "0 \<le> u1" "u1 < 1" "0 \<le> u2" "u2 < 1"
  shows "0 \<le> u1 * 0.004 \<and> u1 * 0.004 < 0.004
    \<and> 0.99 \<le> 0.99 + u2 * 0.003 \<and> 0.99 + u2 * 0.003 < 0.993"
  using assms by simp

text \<open>
  C9. The only division of the tick whose divisor depends on the state is the one of the
  lag step. For an actual rpm \<open>a \<ge> 0\<close> its divisor \<open>(a + 1) * 5\<close> is strictly positive,
  so the lag step has a value, the tick never ends in \<open>NonFinite\<close>, and with a display
  that accepts every write the tick returns a player.
\<close>

theorem no_numeric_error:
  assumes "0 \<le> turbineRpmActualValue p"
  shows "0 < lag_divisor (turbineRpmActualValue p)
    \<and> (\<exists>a'. lag_step (turbineRpmSettingValue p) (turbineRpmActualValue p) = Inr a')
    \<and> updateTick display p u1 u2 \<noteq> Inl NonFinite
    \<and> (\<exists>p'. updateTick (\<lambda>v. True) p u1 u2 = Inr p')"
proof -
  have D: "5 \<le> lag_divisor (turbineRpmActualValue p)" using assms by (rule lag_divisor_ge)
  then have nz: "lag_divisor (turbineRpmActualValue p) \<noteq> 0" by simp
  have "\<exists>a'. lag_step (turbineRpmSettingValue p) (turbineRpmActualValue p) = Inr a'"
    using nz by (simp add: lag_step_Inr)
  moreover have "updateTick display p u1 u2 \<noteq> Inl NonFinite"
    by (simp add: updateTick_cases [OF nz])
  moreover have "\<exists>p'. updateTick (\<lambda>v. True) p u1 u2 = Inr p'"
    by (simp add: updateTick_cases [OF nz])
  ultimately show ?thesis using D by simp
qed

theorem no_numeric_error_witness:
  "(0::real) \<le> turbineRpmActualValue player
   \<and> 0 < lag_divisor 0 \<and> updateTick (\<lambda>v. False) player 0 0 = Inl WriteFailed"
  using no_numeric_error [of player "\<lambda>v. False" 0 0]
  by (simp add: player_def updateTick_def lag_step_def fdiv_def lag_divisor_def)

text \<open>
  C1. With the two random draws \<open>u1\<close>, \<open>u2\<close> in \<open>[0, 1)\<close>, the jitter \<open>u1 * 0.004\<close> lies in
  \<open>[0, 0.004)\<close> and the damping factor \<open>0.99 + u2 * 0.003\<close> in \<open>[0.99, 0.993)\<close>, and the
  player the tick produces is the one the six steps of the specification produce, applied
  in their order: lag step, decay by 0.998, jitter, acceleration, velocity increment,
  damping. The tick returns that player when the display takes the new velocity and
  panics otherwise. The position, the throttle setting, the rudder angle, the direction
  and its acceleration, the buoyancy and its acceleration are the ones before the tick.
  (At the actual rpm \<open>-1\<close> the divisor of the lag step is zero and the reals give the
  quotient no value; the statement leaves that one state out.)
\<close>

theorem updateTick_six_steps:
  assumes "0 \<le> u1" and "u1 < 1" and "0 \<le> u2" and "u2 < 1"
    and "turbineRpmActualValue p \<noteq> - 1"
  shows "0 \<le> u1 * 0.004 \<and> u1 * 0.004 < 0.004
    \<and> 0.99 \<le> 0.99 + u2 * 0.003 \<and> 0.99 + u2 * 0.003 < 0.993
    \<and> updateTick display p u1 u2
        = (if display (velocity (spec_tick (u1 * 0.004) (0.99 + u2 * 0.003) p))
           then Inr (spec_tick (u1 * 0.004) (0.99 + u2 * 0.003) p)
           else Inl WriteFailed)
    \<and> position (spec_tick (u1 * 0.004) (0.99 + u2 * 0.003) p) = position p
    \<and> turbineRpmSettingValue (spec_tick (u1 * 0.004) (0.99 + u2 * 0.003) p)
        = turbineRpmSettingValue p
    \<and> rudderAngle (spec_tick (u1 * 0.004) (0.99 + u2 * 0.003) p) = rudderAngle p
    \<and> direction (spec_tick (u1 * 0.004) (0.99 + u2 * 0.003) p) = direction p
    \<and> directionAcceleration (spec_tick (u1 * 0.004) (0.99 + u2 * 0.003) p)
        = directionAcceleration p
    \<and> buoyancy (spec_tick (u1 * 0.004) (0.99 + u2 * 0.003) p) = buoyancy p
    \<and> buoyancyAcceleration (spec_tick (u1 * 0.004) (0.99 + u2 * 0.003) p)
        = buoyancyAcceleration p"
proof -
  have "lag_divisor (turbineRpmActualValue p) \<noteq> 0"
    using assms(5) by (simp add: lag_divisor_def)
  then have "updateTick display p u1 u2
        = (if display (velocity (spec_tick (u1 * 0.004) (0.99 + u2 * 0.003) p))
           then Inr (spec_tick (u1 * 0.004) (0.99 + u2 * 0.003) p)
           else Inl WriteFailed)"
    by (rule updateTick_cases)
  then show ?thesis
    using draws_in_range [OF assms(1-4)]
    by (simp only: spec_tick_other_fields spec_tick_fields(1))
qed

theorem updateTick_six_steps_witness:
  "(0::real) \<le> 1 / 2 \<and> (1 / 2 :: real) < 1
   \<and> turbineRpmActualValue (player\<lparr>turbineRpmSettingValue := 200\<rparr>) \<noteq> - 1
   \<and> updateTick (\<lambda>v. True) (player\<lparr>turbineRpmSettingValue := 200\<rparr>) (1 / 2) (1 / 2)
       = Inr (spec_tick 0.002 0.9915 (player\<lparr>turbineRpmSettingValue := 200\<rparr>))
   \<and> spec_tick 0.002 0.9915 (player\<lparr>turbineRpmSettingValue := 200\<rparr>)
       = player\<lparr>turbineRpmSettingValue := 200, turbineRpmActualValue := 39.99984,
           acceleration := 3.999984, velocity := 0.3965984136\<rparr>"
proof -
  have "spec_tick 0.002 0.9915 (player\<lparr>turbineRpmSettingValue := 200\<rparr>)
       = player\<lparr>turbineRpmSettingValue := 200, turbineRpmActualValue := 39.99984,
           acceleration := 3.999984, velocity := 0.3965984136\<rparr>"
    by (simp add: spec_tick_def spec_step1_def spec_step2_def spec_step3_def spec_step4_def
        spec_step5_def spec_step6_def player_def)
  then show ?thesis
    using updateTick_six_steps
      [of "1 / 2" "1 / 2" "player\<lparr>turbineRpmSettingValue := 200\<rparr>" "\<lambda>v. True"]
    by (simp add: player_def)
qed

subsection \<open>The range predicate\<close>




lemma buttonTurbineMinus_statements:
  "buttonTurbineMinus p = buttonTurbineMinus_floor (buttonTurbineMinus_sub p)"
  by (simp add: buttonTurbineMinus_def buttonTurbineMinus_floor_def buttonTurbineMinus_sub_def
      Let_def)





section \<open>The status message\<close>

lemma band_range_unique: "\<exists>!b. band_range b v"
proof -
  consider "v < 1" | "1 \<le> v \<and> v < 10" | "10 \<le> v \<and> v < 50" | "50 \<le> v \<and> v < 100"
    | "100 \<le> v \<and> v < 150" | "150 \<le> v"
    by linarith
  then obtain b where b: "band_range b v"
    by cases (auto intro: band_range.simps [THEN iffD2])
  have "c = b" if "band_range c v" for c
    using that b by (cases c; cases b) simp_all
  then show ?thesis using b by blast
qed

lemma message_of_band:
  "band_range b v \<Longrightarrow>
   writeLines_message fmt v = band_label b @ (if b = FullSpeed then [] else fmt v)"
  by (cases b) (simp_all add: writeLines_message_def)

lemma band_label_prefix:
  "prefix (band_label c) (band_label b @ rest) \<longleftrightarrow> c = b"
  by (cases c; cases b) simp_all

text \<open>
  C3. Every velocity lies in exactly one of the six bands, and the message \<open>writeLines\<close>
  builds for it starts with the label of that band and of no other: the first-match
  chain over the thresholds 1, 10, 50, 100, 150 is the partition into the intervals
  closed below and open above. A threshold itself belongs to the band above it: at 1 the
  label is the one of "nearly stopped", at 10 "moving forward at low speed", at 50 "moving
  forward", at 100 "moving forward at high speed", at 150 "full speed forward". (The
  program writes each label with a full stop at its end, and "Nearly Stopped." with a
  capital S.)
\<close>

theorem velocity_bands:
  "(band_range b v \<longleftrightarrow> prefix (band_label b) (writeLines_message fmt v))
   \<and> (\<exists>!c. band_range c v)
   \<and> writeLines_message fmt 1 = ''Nearly Stopped.'' @ fmt 1
   \<and> writeLines_message fmt 10 = ''Moving forward at low speed.'' @ fmt 10
   \<and> writeLines_message fmt 50 = ''Moving forward.'' @ fmt 50
   \<and> writeLines_message fmt 100 = ''Moving forward at high speed.'' @ fmt 100
   \<and> writeLines_message fmt 150 = ''Full speed forward.''"
proof -
  obtain c where c: "band_range c v" and u: "\<And>d. band_range d v \<Longrightarrow> d = c"
    using band_range_unique [of v] by blast
  have "prefix (band_label b) (writeLines_message fmt v) \<longleftrightarrow> b = c"
    by (simp only: message_of_band [OF c] band_label_prefix)
  then have "band_range b v \<longleftrightarrow> prefix (band_label b) (writeLines_message fmt v)"
    using c u by blast
  moreover have "writeLines_message fmt 1 = ''Nearly Stopped.'' @ fmt 1"
    "writeLines_message fmt 10 = ''Moving forward at low speed.'' @ fmt 10"
    "writeLines_message fmt 50 = ''Moving forward.'' @ fmt 50"
    "writeLines_message fmt 100 = ''Moving forward at high speed.'' @ fmt 100"
    "writeLines_message fmt 150 = ''Full speed forward.''"
    by (simp_all add: writeLines_message_def)
  ultimately show ?thesis using band_range_unique [of v] by blast
qed

text \<open>
  With a text widget that takes every line, \<open>writeLines\<close> writes the message it built at
  its start once per firing of the ticker, whatever the player is by then.
\<close>

lemma writeLines_loop_const:
  "\<forall>l. wr l \<Longrightarrow>
   writeLines_loop wr message ps = Inr (replicate (length ps) (message @ ''\<newline>''))"
  by (induction ps) simp_all

text \<open>
  C2 asks that each line written carries the band of the velocity at the time of the
  write, and that velocity. The program builds the message before its loop: started on the
  initial player (velocity 0), it writes the line of "Stopped." with the velocity 0 also
  at a firing where the velocity is 12, and that line is not the message of the velocity
  12. Moreover the message of the last band carries no velocity at all.
\<close>

theorem writeLines_message_is_stale:
  "writeLines (\<lambda>l. True) fmt player [player\<lparr>velocity := 12\<rparr>]
     = Inr [''Stopped.'' @ fmt 0 @ ''\<newline>'']
   \<and> ''Stopped.'' @ fmt 0 @ ''\<newline>'' \<noteq> writeLines_message fmt 12 @ ''\<newline>''
   \<and> writeLines (\<lambda>l. True) fmt (player\<lparr>velocity := 150\<rparr>) [player\<lparr>velocity := 150\<rparr>]
     = Inr [''Full speed forward.'' @ ''\<newline>'']"
  by (simp add: writeLines_def writeLines_message_def player_def)

end
